theory Spec2Isabelle
  imports Complex_Main
begin

section \<open>JavaScript values\<close>

text \<open>
  A JavaScript number is modelled as a real number or \<open>NaN\<close>. Rounding and the two
  infinities are left out: every finite double is read as the real it denotes and the
  arithmetic is exact. A coordinate that is missing from a landmark object reads as
  \<open>undefined\<close>, which every arithmetic operator turns into \<open>NaN\<close>, so a missing
  coordinate is \<open>NaN\<close> here as well.
\<close>

datatype jsnum = NaN | Num real

fun js_add :: "jsnum \<Rightarrow> jsnum \<Rightarrow> jsnum" where
  "js_add (Num a) (Num b) = Num (a + b)"
| "js_add _ _ = NaN"

fun js_sub :: "jsnum \<Rightarrow> jsnum \<Rightarrow> jsnum" where
  "js_sub (Num a) (Num b) = Num (a - b)"
| "js_sub _ _ = NaN"

fun js_mul :: "jsnum \<Rightarrow> jsnum \<Rightarrow> jsnum" where
  "js_mul (Num a) (Num b) = Num (a * b)"
| "js_mul _ _ = NaN"

text \<open>Division; the code divides by the constant 4 only.\<close>

fun js_div :: "jsnum \<Rightarrow> jsnum \<Rightarrow> jsnum" where
  "js_div (Num a) (Num b) = (if b = 0 then NaN else Num (a / b))"
| "js_div _ _ = NaN"

text \<open>\<open>Math.pow(a, 2)\<close>.\<close>

fun js_pow2 :: "jsnum \<Rightarrow> jsnum" where
  "js_pow2 (Num a) = Num (a ^ 2)"
| "js_pow2 NaN = NaN"

text \<open>\<open>Math.sqrt\<close>: \<open>NaN\<close> below zero.\<close>

fun js_sqrt :: "jsnum \<Rightarrow> jsnum" where
  "js_sqrt (Num a) = (if a < 0 then NaN else Num (sqrt a))"
| "js_sqrt NaN = NaN"

text \<open>\<open>Math.hypot(a, b)\<close>.\<close>

definition js_hypot :: "jsnum \<Rightarrow> jsnum \<Rightarrow> jsnum" where
  "js_hypot a b = js_sqrt (js_add (js_pow2 a) (js_pow2 b))"

text \<open>The comparisons \<open>>\<close> and \<open><\<close>: false as soon as one side is \<open>NaN\<close>.\<close>

fun js_gt :: "jsnum \<Rightarrow> jsnum \<Rightarrow> bool" where
  "js_gt (Num a) (Num b) = (a > b)"
| "js_gt _ _ = False"

fun js_lt :: "jsnum \<Rightarrow> jsnum \<Rightarrow> bool" where
  "js_lt (Num a) (Num b) = (a < b)"
| "js_lt _ _ = False"

text \<open>
  Reading a property of \<open>undefined\<close> throws a \<open>TypeError\<close>; it is the only exception
  the modelled code can raise.
\<close>

datatype error = TypeError

text \<open>\<open>xs[i]\<close>: \<open>undefined\<close> (here \<open>None\<close>) outside the array.\<close>

definition js_index :: "'a list \<Rightarrow> nat \<Rightarrow> 'a option" where
  "js_index xs i = (if i < length xs then Some (xs ! i) else None)"

section \<open>Landmarks and gesture labels\<close>

record landmark =
  lm_x :: jsnum
  lm_y :: jsnum
  lm_z :: jsnum

text \<open>
  The gesture labels of both programs: \<open>main.js\<close> uses \<open>'loading'\<close>, \<open>'closed'\<close>,
  \<open>'open'\<close>, \<open>'none'\<close>; \<open>script.js\<close> uses \<open>'NONE'\<close>, \<open>'PINCH'\<close>, \<open>'FIST'\<close>,
  \<open>'OPEN'\<close>.
\<close>

datatype gesture = LOADING | NONE | OPEN | CLOSED | FIST | PINCH

section \<open>main.js: detectGesture\<close>

text \<open>The helper \<open>dist\<close> of \<open>detectGesture\<close>; an argument may be \<open>undefined\<close>.\<close>

definition dist_js :: "landmark option \<Rightarrow> landmark option \<Rightarrow> error + jsnum" where
  "dist_js p1 p2 =
     (case p1 of None \<Rightarrow> Inl TypeError
      | Some a \<Rightarrow>
        (case p2 of None \<Rightarrow> Inl TypeError
         | Some b \<Rightarrow>
           Inr (js_sqrt (js_add (js_add (js_pow2 (js_sub (lm_x a) (lm_x b)))
                                        (js_pow2 (js_sub (lm_y a) (lm_y b))))
                                (js_pow2 (js_sub (lm_z a) (lm_z b)))))))"

text \<open>The table of (tip, mcp) indices: index, middle, ring, pinky.\<close>

definition fingerIndices :: "(nat \<times> nat) list" where
  "fingerIndices = [(8, 5), (12, 9), (16, 13), (20, 17)]"

text \<open>The \<open>forEach\<close> over \<open>fingerIndices\<close>, threading \<open>extendedCount\<close>.\<close>

fun count_extended :: "landmark list \<Rightarrow> (nat \<times> nat) list \<Rightarrow> nat \<Rightarrow> error + nat" where
  "count_extended landmarks [] extendedCount = Inr extendedCount"
| "count_extended landmarks ((tip, mcp) # rest) extendedCount =
     (case dist_js (js_index landmarks tip) (js_index landmarks 0) of
        Inl e \<Rightarrow> Inl e
      | Inr dTip \<Rightarrow>
          (case dist_js (js_index landmarks mcp) (js_index landmarks 0) of
             Inl e \<Rightarrow> Inl e
           | Inr dMcp \<Rightarrow>
               count_extended landmarks rest
                 (if js_gt dTip (js_mul dMcp (Num 1.5)) then extendedCount + 1
                  else extendedCount)))"

text \<open>\<open>detectGesture(landmarks)\<close>; \<open>None\<close> is a \<open>null\<close> or \<open>undefined\<close> argument.\<close>

definition detectGesture :: "landmark list option \<Rightarrow> error + gesture" where
  "detectGesture landmarks =
     (case landmarks of
        None \<Rightarrow> Inr NONE
      | Some lms \<Rightarrow>
          if length lms = 0 then Inr NONE
          else
            (case count_extended lms fingerIndices 0 of
               Inl e \<Rightarrow> Inl e
             | Inr extendedCount \<Rightarrow>
                 if extendedCount \<ge> 3 then Inr OPEN
                 else if extendedCount \<le> 1 then Inr CLOSED
                 else Inr NONE))"

section \<open>main.js: the detection loop and the animation loop\<close>

text \<open>The global \<open>state\<close> object of \<open>main.js\<close>.\<close>

record state =
  state_gesture :: gesture
  targetMix :: real
  lastVideoTime :: real

text \<open>
  \<open>predictWebcam\<close>, one call. \<open>handLandmarker\<close> says whether the detector has been
  created, \<open>currentTime\<close> is \<open>video.currentTime\<close>, and \<open>results_landmarks\<close> is the
  field \<open>landmarks\<close> of what \<open>detectForVideo\<close> returns for this frame (\<open>None\<close> when
  the field is missing). A frame is processed when the outer condition holds.
\<close>

definition no_hands :: "state \<Rightarrow> state" where
  "no_hands st = st\<lparr>targetMix := max 0 (targetMix st - 0.02), state_gesture := NONE\<rparr>"

definition apply_gesture :: "gesture \<Rightarrow> state \<Rightarrow> state" where
  "apply_gesture g st =
     (if g = OPEN then st\<lparr>targetMix := 1.0\<rparr>
      else if g = CLOSED then st\<lparr>targetMix := 0.0\<rparr>
      else st)\<lparr>state_gesture := g\<rparr>"

definition predictWebcam ::
  "bool \<Rightarrow> real \<Rightarrow> landmark list list option \<Rightarrow> state \<Rightarrow> error + state" where
  "predictWebcam handLandmarker currentTime results_landmarks st =
     (if handLandmarker \<and> currentTime \<noteq> lastVideoTime st then
        (let st1 = st\<lparr>lastVideoTime := currentTime\<rparr> in
         case results_landmarks of
           None \<Rightarrow> Inr (no_hands st1)
         | Some hands \<Rightarrow>
             if length hands > 0 then
               (case detectGesture (js_index hands 0) of
                  Inl e \<Rightarrow> Inl e
                | Inr g \<Rightarrow> Inr (apply_gesture g st1))
             else Inr (no_hands st1))
      else Inr st)"

text \<open>The uniforms of the particle material that \<open>animate\<close> writes.\<close>

record uniforms =
  uTime :: real
  uMix :: real

text \<open>\<open>animate\<close>, one display frame (the calls into the renderer are not modelled).\<close>

definition animate :: "state \<Rightarrow> uniforms \<Rightarrow> uniforms" where
  "animate st u =
     u\<lparr>uTime := uTime u + 0.01,
       uMix := uMix u + (targetMix st - uMix u) * 0.05\<rparr>"

text \<open>\<open>n\<close> display frames while \<open>state\<close> is not written.\<close>

fun animate_frames :: "nat \<Rightarrow> state \<Rightarrow> uniforms \<Rightarrow> uniforms" where
  "animate_frames 0 st u = u"
| "animate_frames (Suc n) st u = animate_frames n st (animate st u)"

section \<open>main.js: the vertex shader\<close>

type_synonym vec3 = "real \<times> real \<times> real"

text \<open>GLSL \<open>mix(a, b, t) = a * (1 - t) + b * t\<close>, on each component.\<close>

definition mix1 :: "real \<Rightarrow> real \<Rightarrow> real \<Rightarrow> real" where
  "mix1 a b t = a * (1 - t) + b * t"

fun mix :: "vec3 \<Rightarrow> vec3 \<Rightarrow> real \<Rightarrow> vec3" where
  "mix (ax, ay, az) (bx, by, bz) t = (mix1 ax bx t, mix1 ay by t, mix1 az bz t)"

text \<open>
  The position that \<open>main()\<close> hands to the model-view matrix. The noise function
  \<open>snoise\<close> is a parameter: the statements below hold for every noise function.
\<close>

fun turbulent :: "(vec3 \<Rightarrow> real) \<Rightarrow> vec3 \<Rightarrow> real \<Rightarrow> real \<Rightarrow> vec3 \<Rightarrow> vec3" where
  "turbulent snoise (rx, ry, rz) t time (px, py, pz) =
     (let noiseScale = 0.1;
          noiseTime = time * 0.5;
          nX = snoise (px * noiseScale, py * noiseScale, noiseTime + rx);
          nY = snoise (px * noiseScale, py * noiseScale, noiseTime + ry + 10.0);
          nZ = snoise (px * noiseScale, py * noiseScale, noiseTime + rz + 20.0);
          turbulence = t * 2.0
      in (px + nX * turbulence, py + nY * turbulence, pz + nZ * turbulence))"

fun spin :: "real \<Rightarrow> real \<Rightarrow> vec3 \<Rightarrow> vec3" where
  "spin t time (px, py, pz) =
     (if t < 0.5 then
        (let rot = time * 0.1;
             cx = px * cos rot - pz * sin rot;
             cz = px * sin rot + pz * cos rot
         in (cx, py, cz))
      else (px, py, pz))"

definition vertex_main ::
  "(vec3 \<Rightarrow> real) \<Rightarrow> vec3 \<Rightarrow> vec3 \<Rightarrow> vec3 \<Rightarrow> real \<Rightarrow> real \<Rightarrow> vec3" where
  "vertex_main snoise position targetPosition aRandom uMix_v uTime_v =
     (let t = uMix_v;
          pos = mix position targetPosition t
      in spin t uTime_v (turbulent snoise aRandom t uTime_v pos))"

section \<open>script.js: the particle manager\<close>

text \<open>
  \<open>CONFIG.treeHeight\<close> and \<open>CONFIG.treeRadius\<close>.
\<close>

definition treeHeight :: real where
  "treeHeight = 25"

definition treeRadius :: real where
  "treeRadius = 10"

datatype mode = TREE | SCATTER | FOCUS

datatype item_type = PARTICLE | PHOTO

text \<open>
  A mesh of \<open>ParticleManager.items\<close> with its \<open>userData\<close>. The orientation of a mesh
  (\<open>rotation\<close>, \<open>rotationSpeed\<close>, \<open>lookAt\<close>), its geometry and its material are
  read by the renderer only and are not part of the model; \<open>scale\<close> is the common
  value of the three scale components. A mesh is referred to by its index in \<open>items\<close>:
  the list only ever grows at its end, so the index identifies the object.
\<close>

record mesh =
  mtype :: item_type
  treePos :: vec3
  scatterPos :: vec3
  position :: vec3
  scale :: real

text \<open>
  \<open>Math.random()\<close> is a stream \<open>rnd\<close> of numbers with a position \<open>k\<close> in it: the
  next call returns \<open>rnd k\<close>. Functions that call it a fixed number of times take the
  drawn numbers as arguments, in the order of the calls.
\<close>

text \<open>
  \<open>calculateTreePos(i, total, surfaceOnly)\<close>; \<open>u\<close> is the number drawn when
  \<open>surfaceOnly\<close> is false.
\<close>

definition calculateTreePos :: "real \<Rightarrow> real \<Rightarrow> real \<Rightarrow> bool \<Rightarrow> vec3" where
  "calculateTreePos u i total_n surfaceOnly =
     (let t = i / total_n;
          angle = t * pi * 2 * 12;
          y = (t * treeHeight) - (treeHeight / 2);
          progress = 1 - t;
          r0 = progress * treeRadius;
          r = (if \<not> surfaceOnly then r0 * sqrt u else r0);
          x = cos angle * r;
          z = sin angle * r
      in (x, y, z))"

text \<open>\<open>calculateScatterPos()\<close>; \<open>u1\<close>, \<open>u2\<close>, \<open>u3\<close> are its three draws.\<close>

definition calculateScatterPos :: "real \<Rightarrow> real \<Rightarrow> real \<Rightarrow> vec3" where
  "calculateScatterPos u1 u2 u3 =
     (let r = 10 + u1 * 15;
          theta = u2 * pi * 2;
          phi = arccos ((u3 * 2) - 1);
          x = r * sin phi * cos theta;
          y = r * sin phi * sin theta;
          z = r * cos phi
      in (x, y, z))"

text \<open>
  One round of the constructor's loop: the mesh for index \<open>i\<close> and the position in the
  stream after it. The draws, in order: one for the geometry, one or two for the
  material, one in \<open>calculateTreePos\<close>, three in \<open>calculateScatterPos\<close>, three for
  \<open>rotationSpeed\<close> and two for \<open>rotation.set\<close>.
\<close>

definition make_particle :: "(nat \<Rightarrow> real) \<Rightarrow> nat \<Rightarrow> nat \<Rightarrow> nat \<Rightarrow> mesh \<times> nat" where
  "make_particle rnd k i count =
     (let k1 = (if rnd (k + 1) > 0.7 then k + 2 else k + 3);
          tp = calculateTreePos (rnd k1) (real i) (real count) False;
          sp = calculateScatterPos (rnd (k1 + 1)) (rnd (k1 + 2)) (rnd (k1 + 3))
      in (\<lparr>mtype = PARTICLE, treePos = tp, scatterPos = sp, position = tp, scale = 1\<rparr>,
          k1 + 9))"

text \<open>\<open>addPhoto(texture)\<close>: four draws.\<close>

definition addPhoto :: "(nat \<Rightarrow> real) \<Rightarrow> nat \<Rightarrow> mesh list \<Rightarrow> mesh list \<times> nat" where
  "addPhoto rnd k items =
     (let tp = calculateTreePos 0 (rnd k * 1000) 1000 True;
          sp = calculateScatterPos (rnd (k + 1)) (rnd (k + 2)) (rnd (k + 3))
      in (items @ [\<lparr>mtype = PHOTO, treePos = tp, scatterPos = sp, position = tp, scale = 1\<rparr>],
          k + 4))"

text \<open>The constructor's \<open>for\<close> loop, from index \<open>i\<close> on.\<close>

function make_particles ::
  "(nat \<Rightarrow> real) \<Rightarrow> nat \<Rightarrow> nat \<Rightarrow> nat \<Rightarrow> mesh list \<Rightarrow> mesh list \<times> nat" where
  "make_particles rnd k i count items =
     (if i < count then
        (case make_particle rnd k i count of
           (m, k') \<Rightarrow> make_particles rnd k' (i + 1) count (items @ [m]))
      else (items, k))"
  by pat_completeness auto
termination
  by (relation "measure (\<lambda>(rnd, k, i, count, items). count - i)") auto

declare make_particles.simps [simp del]

text \<open>
  \<open>new ParticleManager(parent, count)\<close>: the particles, then \<open>createDefaultPhoto\<close>,
  which draws a canvas texture and calls \<open>addPhoto\<close>.
\<close>

definition ParticleManager :: "(nat \<Rightarrow> real) \<Rightarrow> nat \<Rightarrow> nat \<Rightarrow> mesh list \<times> nat" where
  "ParticleManager rnd k count =
     (case make_particles rnd k 0 count [] of
        (items, k') \<Rightarrow> addPhoto rnd k' items)"

section \<open>script.js: the shared STATE and the gesture handler\<close>

text \<open>
  The global \<open>STATE\<close> together with the \<open>items\<close> of the particle manager.
  \<open>targetPhoto\<close> is \<open>None\<close> for \<open>null\<close> and \<open>undefined\<close>.
\<close>

record app =
  mode :: mode
  targetPhoto :: "nat option"
  handDetected :: bool
  handRotation :: "jsnum \<times> jsnum"
  gesture :: gesture
  items :: "mesh list"

text \<open>The initial \<open>STATE\<close> literal, with the items of a new particle manager.\<close>

definition initial_app :: "mesh list \<Rightarrow> app" where
  "initial_app ms =
     \<lparr>mode = TREE, targetPhoto = None, handDetected = False,
      handRotation = (Num 0, Num 0), gesture = NONE, items = ms\<rparr>"

text \<open>
  \<open>triggerFocus()\<close>; \<open>u\<close> is the number it draws when there is a photo. The array
  \<open>photos\<close> holds references, here indices into \<open>items\<close>.
\<close>

definition photos_of :: "mesh list \<Rightarrow> nat list" where
  "photos_of ms = filter (\<lambda>i. mtype (ms ! i) = PHOTO) [0..<length ms]"

definition triggerFocus :: "real \<Rightarrow> app \<Rightarrow> app" where
  "triggerFocus u s =
     (let photos = photos_of (items s) in
      if length photos > 0 then
        (let j = \<lfloor>u * real (length photos)\<rfloor>;
             target = (if j < 0 then None else js_index photos (nat j))
         in s\<lparr>targetPhoto := target\<rparr>)
      else s)"

text \<open>Sequencing of computations that may throw.\<close>

definition bind_err :: "error + 'a \<Rightarrow> ('a \<Rightarrow> error + 'b) \<Rightarrow> error + 'b" where
  "bind_err m f = (case m of Inl e \<Rightarrow> Inl e | Inr v \<Rightarrow> f v)"

text \<open>\<open>lm[i]\<close> followed by a property access on it.\<close>

definition lm_at :: "landmark list \<Rightarrow> nat \<Rightarrow> error + landmark" where
  "lm_at lm i = (case js_index lm i of None \<Rightarrow> Inl TypeError | Some p \<Rightarrow> Inr p)"

text \<open>\<open>tips.forEach(t => avgTipDist += Math.hypot(t.x - wrist.x, t.y - wrist.y))\<close>.\<close>

fun sum_tip_dist :: "landmark \<Rightarrow> landmark list \<Rightarrow> jsnum \<Rightarrow> jsnum" where
  "sum_tip_dist wrist [] avgTipDist = avgTipDist"
| "sum_tip_dist wrist (t # ts) avgTipDist =
     sum_tip_dist wrist ts
       (js_add avgTipDist
          (js_hypot (js_sub (lm_x t) (lm_x wrist)) (js_sub (lm_y t) (lm_y wrist))))"

text \<open>
  What both handlers compute before they classify: the smoothed rotation, \<open>pinchDist\<close>
  and \<open>avgTipDist\<close>. State written before a throw is not kept.
\<close>

definition smooth_rotation :: "landmark \<Rightarrow> jsnum \<times> jsnum \<Rightarrow> jsnum \<times> jsnum" where
  "smooth_rotation palm hr =
     (let targetRotX = js_mul (js_sub (lm_y palm) (Num 0.5)) (Num 1.5);
          targetRotY = js_mul (js_sub (lm_x palm) (Num 0.5)) (Num 2.5)
      in (js_add (fst hr) (js_mul (js_sub targetRotX (fst hr)) (Num 0.1)),
          js_add (snd hr) (js_mul (js_sub targetRotY (snd hr)) (Num 0.1))))"

definition measure_hand :: "landmark list \<Rightarrow> app \<Rightarrow> error + (app \<times> jsnum \<times> jsnum)" where
  "measure_hand lm s =
     bind_err (lm_at lm 9) (\<lambda>palm.
     bind_err (lm_at lm 4) (\<lambda>thumb.
     bind_err (lm_at lm 8) (\<lambda>index.
     bind_err (lm_at lm 0) (\<lambda>wrist.
     bind_err (lm_at lm 12) (\<lambda>middle.
     bind_err (lm_at lm 16) (\<lambda>ring.
     bind_err (lm_at lm 20) (\<lambda>pinky.
       (let s1 = s\<lparr>handDetected := True,
                    handRotation := smooth_rotation palm (handRotation s)\<rparr>;
            tips = [index, middle, ring, pinky];
            pinchDist = js_hypot (js_sub (lm_x thumb) (lm_x index))
                                 (js_sub (lm_y thumb) (lm_y index));
            avgTipDist = js_div (sum_tip_dist wrist tips (Num 0)) (Num 4)
        in Inr (s1, pinchDist, avgTipDist)))))))))"

text \<open>
  \<open>ChristmasApp.handleGestures\<close> of the first program in \<open>script.js\<close> (lines 408 to
  469; it replaces the method of the same name declared earlier in the class).
\<close>

definition handleGestures :: "real \<Rightarrow> landmark list list option \<Rightarrow> app \<Rightarrow> error + app" where
  "handleGestures u results_landmarks s =
     (if (case results_landmarks of None \<Rightarrow> False | Some hands \<Rightarrow> length hands > 0) then
        bind_err (measure_hand (the results_landmarks ! 0) s) (\<lambda>(s1, pinchDist, avgTipDist).
          if js_lt pinchDist (Num 0.05) then
            Inr (triggerFocus u (s1\<lparr>gesture := PINCH, mode := FOCUS\<rparr>))
          else if js_gt avgTipDist (Num 0.45) then
            Inr (s1\<lparr>gesture := OPEN, mode := SCATTER\<rparr>)
          else if js_lt avgTipDist (Num 0.25) then
            Inr (s1\<lparr>gesture := FIST, mode := TREE\<rparr>)
          else
            (let s2 = s1\<lparr>gesture := NONE\<rparr> in
             if mode s2 = SCATTER \<or> mode s2 = FOCUS then Inr (s2\<lparr>mode := TREE\<rparr>)
             else Inr s2))
      else Inr (s\<lparr>handDetected := False, mode := TREE\<rparr>))"

text \<open>
  \<open>ChristmasApp.handleGestures\<close> of the last program in \<open>script.js\<close> (lines 2492 to
  2542).
\<close>

definition handleGestures_b :: "real \<Rightarrow> landmark list list option \<Rightarrow> app \<Rightarrow> error + app" where
  "handleGestures_b u results_landmarks s =
     (if (case results_landmarks of None \<Rightarrow> False | Some hands \<Rightarrow> length hands > 0) then
        bind_err (measure_hand (the results_landmarks ! 0) s) (\<lambda>(s1, pinchDist, avgTipDist).
          if js_lt pinchDist (Num 0.05) then
            Inr (triggerFocus u (s1\<lparr>gesture := PINCH, mode := FOCUS\<rparr>))
          else if js_lt avgTipDist (Num 0.2) then
            Inr (s1\<lparr>gesture := FIST, mode := TREE\<rparr>)
          else if js_gt avgTipDist (Num 0.35) then
            Inr (s1\<lparr>gesture := OPEN, mode := SCATTER\<rparr>)
          else Inr (s1\<lparr>gesture := NONE\<rparr>))
      else Inr (s\<lparr>handDetected := False\<rparr>))"

section \<open>script.js: the per-frame update of the particles\<close>

text \<open>\<open>THREE.Vector3.lerp(v, alpha)\<close>: each component moves by \<open>(v - this) * alpha\<close>.\<close>

fun v3_lerp :: "vec3 \<Rightarrow> vec3 \<Rightarrow> real \<Rightarrow> vec3" where
  "v3_lerp (px, py, pz) (vx, vy, vz) alpha =
     (px + (vx - px) * alpha, py + (vy - py) * alpha, pz + (vz - pz) * alpha)"

text \<open>\<open>THREE.MathUtils.lerp(x, y, t)\<close>.\<close>

definition mu_lerp :: "real \<Rightarrow> real \<Rightarrow> real \<Rightarrow> real" where
  "mu_lerp a b t = (1 - t) * a + t * b"

text \<open>
  The target position and target scale that one round of the \<open>forEach\<close> in \<open>update\<close>
  picks for the mesh with index \<open>i\<close>.
\<close>

definition target_of :: "mode \<Rightarrow> nat option \<Rightarrow> nat \<Rightarrow> mesh \<Rightarrow> vec3 option \<times> real" where
  "target_of md tp i m =
     (case md of
        TREE \<Rightarrow> (Some (treePos m), 1)
      | SCATTER \<Rightarrow> (Some (scatterPos m), 1)
      | FOCUS \<Rightarrow>
          if tp = Some i then (Some (0, 2, 35), 4.0)
          else (Some (scatterPos m), 1))"

definition update_mesh :: "real \<Rightarrow> mode \<Rightarrow> nat option \<Rightarrow> nat \<Rightarrow> mesh \<Rightarrow> mesh" where
  "update_mesh lerpFactor md tp i m =
     (case target_of md tp i m of
        (targetPos, targetScale) \<Rightarrow>
          (let m1 = (case targetPos of
                       None \<Rightarrow> m
                     | Some t \<Rightarrow> m\<lparr>position := v3_lerp (position m) t lerpFactor\<rparr>);
               currentScale = scale m1
           in if \<bar>currentScale - targetScale\<bar> > 0.01
              then m1\<lparr>scale := mu_lerp currentScale targetScale lerpFactor\<rparr>
              else m1))"

text \<open>\<open>update(delta, time, mode)\<close>.\<close>

definition update :: "real \<Rightarrow> real \<Rightarrow> mode \<Rightarrow> app \<Rightarrow> app" where
  "update delta time md s =
     (let lerpFactor = 2.0 * delta in
      s\<lparr>items := map (\<lambda>(i, m). update_mesh lerpFactor md (targetPhoto s) i m)
                      (enumerate 0 (items s))\<rparr>)"

text \<open>The target position alone; without a target the mesh stays where it is.\<close>

definition target_position :: "mode \<Rightarrow> nat option \<Rightarrow> nat \<Rightarrow> mesh \<Rightarrow> vec3" where
  "target_position md tp i m =
     (case fst (target_of md tp i m) of Some t \<Rightarrow> t | None \<Rightarrow> position m)"

section \<open>Runs of the program\<close>

text \<open>
  The detection loop calls the gesture handler once for each new video frame. A frame
  is the number that \<open>triggerFocus\<close> would draw and the \<open>landmarks\<close> of the
  detection result; the run returns the state after each frame and stops at a throw.
\<close>

type_synonym handler = "real \<Rightarrow> landmark list list option \<Rightarrow> app \<Rightarrow> error + app"

fun run_frames :: "handler \<Rightarrow> (real \<times> landmark list list option) list \<Rightarrow> app \<Rightarrow> error + app list" where
  "run_frames h [] s = Inr []"
| "run_frames h ((u, r) # frames) s =
     bind_err (h u r s) (\<lambda>s'.
     bind_err (run_frames h frames s') (\<lambda>rest. Inr (s' # rest)))"

text \<open>
  The states the first program of \<open>script.js\<close> can be in: it starts from the \<open>STATE\<close>
  literal and a new particle manager; a processed video frame runs \<open>handleGestures\<close>
  (with a draw of \<open>Math.random\<close>, which lies in [0, 1)); an upload runs \<open>addPhoto\<close>;
  a display frame runs \<open>update\<close>. A handler that throws has set \<open>handDetected\<close>
  and may have written the rotation, and nothing else.
\<close>

inductive reachable :: "app \<Rightarrow> bool" where
  init: "reachable (initial_app (fst (ParticleManager rnd k n)))"
| frame: "reachable s \<Longrightarrow> 0 \<le> u \<Longrightarrow> u < 1 \<Longrightarrow> handleGestures u r s = Inr s'
          \<Longrightarrow> reachable s'"
| upload: "reachable s \<Longrightarrow> reachable (s\<lparr>items := fst (addPhoto rnd k (items s))\<rparr>)"
| display: "reachable s \<Longrightarrow> reachable (update delta time (mode s) s)"
| thrown: "reachable s \<Longrightarrow> handleGestures u r s = Inl e
           \<Longrightarrow> reachable (s\<lparr>handDetected := True, handRotation := hr\<rparr>)"

section \<open>Reference notions of the specification\<close>

text \<open>
  The notions below are written from the specification's words, to compare the code
  against: a hand of real points, the Euclidean distance in space, an extended finger,
  and a point given by radius, inclination and azimuth.
\<close>

definition landmark_of :: "vec3 \<Rightarrow> landmark" where
  "landmark_of p =
     (case p of (a, b, c) \<Rightarrow> \<lparr>lm_x = Num a, lm_y = Num b, lm_z = Num c\<rparr>)"

definition euclid3 :: "vec3 \<Rightarrow> vec3 \<Rightarrow> real" where
  "euclid3 p q =
     (case p of (ax, ay, az) \<Rightarrow>
        (case q of (bx, by, bz) \<Rightarrow> sqrt ((ax - bx)\<^sup>2 + (ay - by)\<^sup>2 + (az - bz)\<^sup>2)))"

definition euclid2 :: "vec3 \<Rightarrow> vec3 \<Rightarrow> real" where
  "euclid2 p q =
     (case p of (ax, ay, az) \<Rightarrow>
        (case q of (bx, by, bz) \<Rightarrow> sqrt ((ax - bx)\<^sup>2 + (ay - by)\<^sup>2)))"

definition spec_extended :: "vec3 list \<Rightarrow> nat \<times> nat \<Rightarrow> bool" where
  "spec_extended pts f =
     (case f of (tip, mcp) \<Rightarrow>
        euclid3 (pts ! tip) (pts ! 0) > euclid3 (pts ! mcp) (pts ! 0) * 1.5)"

definition spec_extendedCount :: "vec3 list \<Rightarrow> nat" where
  "spec_extendedCount pts =
     length (filter (spec_extended pts) [(8, 5), (12, 9), (16, 13), (20, 17)])"

definition spherical :: "real \<Rightarrow> real \<Rightarrow> real \<Rightarrow> vec3" where
  "spherical r inclination azimuth =
     (r * sin inclination * cos azimuth, r * sin inclination * sin azimuth, r * cos inclination)"

definition has_NaN :: "landmark \<Rightarrow> bool" where
  "has_NaN p = (lm_x p = NaN \<or> lm_y p = NaN \<or> lm_z p = NaN)"

text \<open>The mean distance in the image plane from the four finger tips to the wrist.\<close>

definition avg_tip_dist :: "vec3 list \<Rightarrow> real" where
  "avg_tip_dist pts =
     (euclid2 (pts ! 8) (pts ! 0) + euclid2 (pts ! 12) (pts ! 0)
      + euclid2 (pts ! 16) (pts ! 0) + euclid2 (pts ! 20) (pts ! 0)) / 4"

text \<open>The point \<open>(1 - t) * p + t * q\<close> of the segment from \<open>p\<close> to \<open>q\<close>.\<close>

definition convex :: "real \<Rightarrow> vec3 \<Rightarrow> vec3 \<Rightarrow> vec3" where
  "convex t p q =
     (case p of (px, py, pz) \<Rightarrow>
        (case q of (qx, qy, qz) \<Rightarrow>
           ((1 - t) * px + t * qx, (1 - t) * py + t * qy, (1 - t) * pz + t * qz)))"

text \<open>A mesh of the given kind resting at \<open>tp\<close> with scatter target \<open>sp\<close>.\<close>

definition mesh_at :: "item_type \<Rightarrow> vec3 \<Rightarrow> vec3 \<Rightarrow> mesh" where
  "mesh_at ty tp sp =
     \<lparr>mtype = ty, treePos = tp, scatterPos = sp, position = tp, scale = 1\<rparr>"

text \<open>
  A hand for the examples: every landmark on the vertical line \<open>x = 0.5\<close>, the wrist
  at height \<open>0.9\<close>, the thumb tip at \<open>thumb_y\<close>, the four finger tips at \<open>tip_y\<close> and
  every other joint at \<open>0.7\<close>.
\<close>

definition example_hand :: "real \<Rightarrow> real \<Rightarrow> vec3 list" where
  "example_hand thumb_y tip_y =
     (let w = (0.5, 0.9, 0); k = (0.5, 0.7, 0); th = (0.5, thumb_y, 0); t = (0.5, tip_y, 0)
      in [w, k, k, k, th, k, k, k, t, k, k, k, t, k, k, k, t, k, k, k, t])"

section \<open>The finger-count classifier of main.js\<close>

lemma euclid3_vertical: "euclid3 (a, b, c) (a, b', c) = \<bar>b - b'\<bar>"
  by (simp add: euclid3_def)

lemma dist_js_real:
  "dist_js (Some (landmark_of p)) (Some (landmark_of q)) = Inr (Num (euclid3 p q))"
  by (cases p; cases q) (simp add: dist_js_def landmark_of_def euclid3_def not_less)

lemma count_extended_real:
  assumes "\<forall>f \<in> set fs. fst f < length pts \<and> snd f < length pts" and "0 < length pts"
  shows "count_extended (map landmark_of pts) fs c
         = Inr (c + length (filter (spec_extended pts) fs))"
  using assms
proof (induction fs arbitrary: c)
  case Nil
  then show ?case by simp
next
  case (Cons f fs)
  obtain tip mcp where f: "f = (tip, mcp)" by (cases f)
  from Cons.prems f have b: "tip < length pts" "mcp < length pts" "0 < length pts" by auto
  have ih: "\<And>c. count_extended (map landmark_of pts) fs c
                 = Inr (c + length (filter (spec_extended pts) fs))"
    using Cons by auto
  have se: "spec_extended pts (tip, mcp)
            = (euclid3 (pts ! tip) (pts ! 0) > euclid3 (pts ! mcp) (pts ! 0) * 1.5)"
    by (simp add: spec_extended_def)
  show ?case using b
    by (simp add: f js_index_def dist_js_real ih se)
qed

lemma spec_extendedCount_le: "spec_extendedCount pts \<le> 4"
proof -
  have "length (filter (spec_extended pts) [(8, 5), (12, 9), (16, 13), (20, 17)])
        \<le> length [(8::nat, 5::nat), (12, 9), (16, 13), (20, 17)]"
    by (rule length_filter_le)
  then show ?thesis by (simp add: spec_extendedCount_def)
qed

lemma detectGesture_real:
  assumes "length pts = 21"
  shows "detectGesture (Some (map landmark_of pts)) =
           Inr (if spec_extendedCount pts \<ge> 3 then OPEN
                else if spec_extendedCount pts \<le> 1 then CLOSED else NONE)"
proof -
  have "count_extended (map landmark_of pts) fingerIndices 0
        = Inr (0 + length (filter (spec_extended pts) fingerIndices))"
    by (rule count_extended_real) (simp_all add: fingerIndices_def assms)
  then show ?thesis
    by (simp add: detectGesture_def assms spec_extendedCount_def fingerIndices_def)
qed

lemma length_example_hand [simp]: "length (example_hand a b) = 21"
  by (simp add: example_hand_def Let_def)

lemma example_hand_extended: "b < 0.6 \<Longrightarrow> spec_extendedCount (example_hand a b) = 4"
  by (simp add: example_hand_def Let_def spec_extendedCount_def spec_extended_def
        euclid3_vertical)

text \<open>
  Claim C1. For a hand of 21 landmarks, \<open>detectGesture\<close> counts the fingers among index,
  middle, ring and pinky whose tip is more than 1.5 times as far from the wrist as the
  knuckle is (distances in space), and answers \<open>open\<close> for a count of at least 3,
  \<open>closed\<close> for at most 1 and \<open>none\<close> for exactly 2; the count is at most 4.
\<close>

theorem detectGesture_extended_count:
  assumes "length pts = 21"
  shows "detectGesture (Some (map landmark_of pts)) =
           Inr (if spec_extendedCount pts \<ge> 3 then OPEN
                else if spec_extendedCount pts \<le> 1 then CLOSED else NONE)
         \<and> spec_extendedCount pts \<le> 4
         \<and> (detectGesture (Some (map landmark_of pts)) = Inr NONE
              \<longleftrightarrow> spec_extendedCount pts = 2)"
proof -
  note eq = detectGesture_real [OF assms]
  have "(detectGesture (Some (map landmark_of pts)) = Inr NONE) = (spec_extendedCount pts = 2)"
    unfolding eq by auto
  with eq spec_extendedCount_le show ?thesis by blast
qed

theorem detectGesture_extended_count_witness:
  "length (example_hand 0.5 0.3) = 21
   \<and> spec_extendedCount (example_hand 0.5 0.3) = 4
   \<and> detectGesture (Some (map landmark_of (example_hand 0.5 0.3))) = Inr OPEN"
  using detectGesture_extended_count [of "example_hand 0.5 0.3"]
  by (simp add: example_hand_extended)

section \<open>Absent and degenerate input to detectGesture\<close>

lemma Inl_error: "(x :: error + 'a) = Inl e \<Longrightarrow> x = Inl TypeError"
  by (cases e) simp

lemma count_extended_short_hd:
  assumes "length lms \<le> tip \<or> length lms \<le> mcp"
  shows "count_extended lms ((tip, mcp) # fs) c = Inl TypeError"
proof (cases "length lms \<le> tip")
  case True
  then have "js_index lms tip = None" by (simp add: js_index_def)
  then show ?thesis by (simp add: dist_js_def)
next
  case False
  with assms have "js_index lms mcp = None" by (simp add: js_index_def)
  then have d: "dist_js (js_index lms mcp) (js_index lms 0) = Inl TypeError"
    by (simp add: dist_js_def split: option.splits)
  show ?thesis
  proof (cases "dist_js (js_index lms tip) (js_index lms 0)")
    case (Inl a)
    then show ?thesis by (simp add: Inl_error [OF Inl])
  next
    case (Inr b)
    then show ?thesis by (simp add: d)
  qed
qed

lemma count_extended_short:
  assumes "(tip, mcp) \<in> set fs" and "length lms \<le> tip \<or> length lms \<le> mcp"
  shows "count_extended lms fs c = Inl TypeError"
  using assms(1)
proof (induction fs arbitrary: c)
  case Nil
  then show ?case by simp
next
  case (Cons f fs)
  obtain tip' mcp' where f: "f = (tip', mcp')" by (cases f)
  show ?case
  proof (cases "(tip, mcp) = (tip', mcp')")
    case True
    then show ?thesis using count_extended_short_hd [OF assms(2)] by (simp add: f)
  next
    case False
    with Cons.prems f have "(tip, mcp) \<in> set fs" by auto
    then have ih: "\<And>c. count_extended lms fs c = Inl TypeError"
      using Cons.IH by blast
    show ?thesis
    proof (cases "dist_js (js_index lms tip') (js_index lms 0)")
      case (Inl a)
      then show ?thesis by (simp add: f Inl_error [OF Inl])
    next
      case b: (Inr b)
      show ?thesis
      proof (cases "dist_js (js_index lms mcp') (js_index lms 0)")
        case (Inl a)
        then show ?thesis by (simp add: f b Inl_error [OF Inl])
      next
        case (Inr d)
        then show ?thesis by (simp add: f b ih)
      qed
    qed
  qed
qed

lemma dist_js_Some: "\<exists>d. dist_js (Some a) (Some b) = Inr d"
  by (simp add: dist_js_def)

lemma count_extended_total:
  assumes "\<forall>f \<in> set fs. fst f < length lms \<and> snd f < length lms" and "0 < length lms"
  shows "\<exists>n. count_extended lms fs c = Inr n"
  using assms(1)
proof (induction fs arbitrary: c)
  case Nil
  then show ?case by simp
next
  case (Cons f fs)
  obtain tip mcp where f: "f = (tip, mcp)" by (cases f)
  from Cons.prems f have b: "tip < length lms" "mcp < length lms" by auto
  obtain dTip where dTip: "dist_js (js_index lms tip) (js_index lms 0) = Inr dTip"
    using dist_js_Some b assms(2) by (auto simp: js_index_def)
  obtain dMcp where dMcp: "dist_js (js_index lms mcp) (js_index lms 0) = Inr dMcp"
    using dist_js_Some b assms(2) by (auto simp: js_index_def)
  have ih: "\<And>c. \<exists>n. count_extended lms fs c = Inr n"
    using Cons by auto
  show ?case
    using ih by (simp add: f dTip dMcp)
qed

lemma detectGesture_total:
  assumes "21 \<le> length lms"
  shows "detectGesture (Some lms) \<in> {Inr OPEN, Inr CLOSED, Inr NONE}"
proof -
  have "\<exists>n. count_extended lms fingerIndices 0 = Inr n"
    using assms by (intro count_extended_total) (auto simp: fingerIndices_def)
  then obtain n where "count_extended lms fingerIndices 0 = Inr n" ..
  moreover have "lms \<noteq> []" using assms by auto
  ultimately show ?thesis by (simp add: detectGesture_def)
qed

lemma detectGesture_short:
  assumes "0 < length lms" and "length lms < 21"
  shows "detectGesture (Some lms) = Inl TypeError"
proof -
  have "count_extended lms fingerIndices 0 = Inl TypeError"
    by (rule count_extended_short [of 20 17]) (use assms in \<open>simp_all add: fingerIndices_def\<close>)
  then show ?thesis using assms by (simp add: detectGesture_def)
qed

lemma js_add_NaN [simp]: "js_add a NaN = NaN" "js_add NaN b = NaN"
  by (cases a; simp)+

lemma js_sub_NaN [simp]: "js_sub a NaN = NaN" "js_sub NaN b = NaN"
  by (cases a; simp)+

lemma js_gt_NaN [simp]: "js_gt NaN b = False" "js_gt a NaN = False"
  by (cases a; simp)+

lemma dist_js_NaN:
  assumes "has_NaN b"
  shows "dist_js (Some a) (Some b) = Inr NaN"
  using assms by (auto simp: dist_js_def has_NaN_def)

lemma count_extended_NaN:
  assumes "\<forall>f \<in> set fs. fst f < length lms \<and> snd f < length lms" and "0 < length lms"
    and "has_NaN (lms ! 0)"
  shows "count_extended lms fs c = Inr c"
  using assms(1)
proof (induction fs)
  case Nil
  then show ?case by simp
next
  case (Cons f fs)
  obtain tip mcp where f: "f = (tip, mcp)" by (cases f)
  from Cons.prems f have b: "tip < length lms" "mcp < length lms" by auto
  have "count_extended lms fs c = Inr c" using Cons by auto
  then show ?case
    using b assms(2) by (simp add: f js_index_def dist_js_NaN [OF assms(3)])
qed

lemma detectGesture_NaN:
  assumes "21 \<le> length lms" and "has_NaN (lms ! 0)"
  shows "detectGesture (Some lms) = Inr CLOSED"
proof -
  have "count_extended lms fingerIndices 0 = Inr 0"
    using assms by (intro count_extended_NaN) (auto simp: fingerIndices_def)
  moreover have "lms \<noteq> []" using assms(1) by auto
  ultimately show ?thesis by (simp add: detectGesture_def)
qed

lemma predictWebcam_no_hands:
  assumes "handLandmarker" and "currentTime \<noteq> lastVideoTime st" and "r = None \<or> r = Some []"
  shows "predictWebcam handLandmarker currentTime r st =
         Inr (st\<lparr>lastVideoTime := currentTime,
                  targetMix := max 0 (targetMix st - 0.02), state_gesture := NONE\<rparr>)"
  using assms by (auto simp: predictWebcam_def no_hands_def)

text \<open>
  Claim C3, as stated, fails: a list with a single landmark makes \<open>detectGesture\<close>
  throw, and a hand of 21 landmarks whose coordinates are all \<open>NaN\<close> is classified
  \<open>closed\<close>, not \<open>none\<close>.
\<close>

theorem detectGesture_degenerate_counterexample:
  "detectGesture (Some [\<lparr>lm_x = Num 0.5, lm_y = Num 0.5, lm_z = Num 0\<rparr>]) = Inl TypeError
   \<and> detectGesture (Some (replicate 21 \<lparr>lm_x = NaN, lm_y = NaN, lm_z = NaN\<rparr>)) = Inr CLOSED"
proof -
  have "detectGesture (Some [\<lparr>lm_x = Num 0.5, lm_y = Num 0.5, lm_z = Num 0\<rparr>]) = Inl TypeError"
    by (rule detectGesture_short) simp_all
  moreover
  have "detectGesture (Some (replicate 21 \<lparr>lm_x = NaN, lm_y = NaN, lm_z = NaN\<rparr>)) = Inr CLOSED"
    by (rule detectGesture_NaN) (simp_all add: has_NaN_def)
  ultimately show ?thesis by simp
qed

text \<open>
  Claim C3, amended. For absent input (\<open>null\<close>, an empty list, or a processed frame
  without hands) the gesture is \<open>none\<close> and nothing is thrown, and every list of at
  least 21 landmarks is classified as \<open>open\<close>, \<open>closed\<close> or \<open>none\<close> without a throw.
  Degenerate hands are not treated as absent: a non-empty list of fewer than 21
  landmarks makes \<open>detectGesture\<close> throw a \<open>TypeError\<close>, and a hand whose wrist has a
  \<open>NaN\<close> or missing coordinate is classified \<open>closed\<close>.
\<close>

theorem detectGesture_absent_and_degenerate:
  "detectGesture None = Inr NONE
   \<and> detectGesture (Some []) = Inr NONE
   \<and> (handLandmarker \<and> currentTime \<noteq> lastVideoTime st \<and> (r = None \<or> r = Some [])
        \<longrightarrow> (\<exists>st'. predictWebcam handLandmarker currentTime r st = Inr st'
                   \<and> state_gesture st' = NONE))
   \<and> (21 \<le> length lms1 \<longrightarrow> detectGesture (Some lms1) \<in> {Inr OPEN, Inr CLOSED, Inr NONE})
   \<and> (0 < length lms2 \<and> length lms2 < 21 \<longrightarrow> detectGesture (Some lms2) = Inl TypeError)
   \<and> (21 \<le> length lms3 \<and> has_NaN (lms3 ! 0) \<longrightarrow> detectGesture (Some lms3) = Inr CLOSED)"
proof -
  have a: "detectGesture None = Inr NONE" "detectGesture (Some []) = Inr NONE"
    by (simp_all add: detectGesture_def)
  have b: "\<exists>st'. predictWebcam handLandmarker currentTime r st = Inr st'
                \<and> state_gesture st' = NONE"
    if "handLandmarker" "currentTime \<noteq> lastVideoTime st" "r = None \<or> r = Some []"
    using predictWebcam_no_hands [OF that] by simp
  from a b detectGesture_total detectGesture_short detectGesture_NaN show ?thesis
    by blast
qed

theorem detectGesture_absent_and_degenerate_witness:
  "(1::real) \<noteq> lastVideoTime \<lparr>state_gesture = LOADING, targetMix = 0, lastVideoTime = -1\<rparr>
   \<and> (\<exists>st'. predictWebcam True 1 (Some [])
               \<lparr>state_gesture = LOADING, targetMix = 0, lastVideoTime = -1\<rparr> = Inr st'
             \<and> state_gesture st' = NONE)
   \<and> 21 \<le> length (map landmark_of (example_hand 0.5 0.3))
   \<and> detectGesture (Some (map landmark_of (example_hand 0.5 0.3)))
       \<in> {Inr OPEN, Inr CLOSED, Inr NONE}
   \<and> 0 < length [\<lparr>lm_x = Num 0.5, lm_y = Num 0.5, lm_z = Num 0\<rparr>]
   \<and> length [\<lparr>lm_x = Num 0.5, lm_y = Num 0.5, lm_z = Num 0\<rparr>] < 21
   \<and> detectGesture (Some [\<lparr>lm_x = Num 0.5, lm_y = Num 0.5, lm_z = Num 0\<rparr>]) = Inl TypeError
   \<and> 21 \<le> length (replicate 21 \<lparr>lm_x = NaN, lm_y = Num 0.5, lm_z = Num 0\<rparr>)
   \<and> has_NaN (replicate 21 \<lparr>lm_x = NaN, lm_y = Num 0.5, lm_z = Num 0\<rparr> ! 0)
   \<and> detectGesture (Some (replicate 21 \<lparr>lm_x = NaN, lm_y = Num 0.5, lm_z = Num 0\<rparr>))
       = Inr CLOSED"
  using detectGesture_absent_and_degenerate
          [of True 1 "\<lparr>state_gesture = LOADING, targetMix = 0, lastVideoTime = -1\<rparr>"
              "Some []" "map landmark_of (example_hand 0.5 0.3)"
              "[\<lparr>lm_x = Num 0.5, lm_y = Num 0.5, lm_z = Num 0\<rparr>]"
              "replicate 21 \<lparr>lm_x = NaN, lm_y = Num 0.5, lm_z = Num 0\<rparr>"]
  by (simp add: has_NaN_def)

section \<open>The blend scalar of main.js\<close>

lemma animate_frames_Suc: "animate_frames (Suc n) st u = animate st (animate_frames n st u)"
  by (induction n arbitrary: u) simp_all

lemma animate_gap: "targetMix st - uMix (animate st u) = 0.95 * (targetMix st - uMix u)"
  by (simp add: animate_def field_simps)

lemma animate_frames_gap:
  "targetMix st - uMix (animate_frames n st u) = 0.95 ^ n * (targetMix st - uMix u)"
proof (induction n)
  case 0
  show ?case by simp
next
  case (Suc n)
  have "targetMix st - uMix (animate_frames (Suc n) st u)
        = 0.95 * (targetMix st - uMix (animate_frames n st u))"
    by (simp only: animate_frames_Suc animate_gap)
  also have "\<dots> = 0.95 * (0.95 ^ n * (targetMix st - uMix u))"
    by (simp only: Suc.IH)
  finally show ?case by simp
qed

lemma pow90: "(0.95::real) ^ 90 < 0.01"
  by (simp add: power_divide)

lemma pow_ge90:
  assumes "90 \<le> n"
  shows "(0.95::real) ^ n < 0.01"
proof -
  have "(0.95::real) ^ n \<le> 0.95 ^ 90"
    using assms by (intro power_decreasing) simp_all
  with pow90 show ?thesis by linarith
qed

text \<open>
  Claim C6. While \<open>targetMix\<close> is held at 1 and the blend \<open>uMix\<close> starts in [0, 1]:
  a frame of \<open>animate\<close> changes the blend by the smoothing formula only; the blend
  never decreases from one frame to the next and stays at most 1; after \<open>n\<close> frames the
  gap to 1 is \<open>0.95 ^ n\<close> times the initial gap; from frame 90 on the gap is below 0.01;
  and a blend below 1 is never set to 1.
\<close>

theorem animate_blend_approaches_target:
  assumes "targetMix st = 1" and "0 \<le> uMix u" and "uMix u \<le> 1"
  shows "uMix (animate st u) = uMix u + (targetMix st - uMix u) * 0.05
         \<and> uMix (animate_frames n st u) \<le> uMix (animate_frames (Suc n) st u)
         \<and> 1 - uMix (animate_frames n st u) = 0.95 ^ n * (1 - uMix u)
         \<and> uMix (animate_frames n st u) \<le> 1
         \<and> (90 \<le> n \<longrightarrow> 1 - uMix (animate_frames n st u) < 0.01)
         \<and> (uMix u < 1 \<longrightarrow> uMix (animate_frames n st u) < 1)"
proof -
  have gap: "\<And>k. 1 - uMix (animate_frames k st u) = 0.95 ^ k * (1 - uMix u)"
    using animate_frames_gap [of st _ u] assms(1) by simp
  have g0: "0 \<le> 1 - uMix u" using assms(3) by simp
  have formula: "uMix (animate st u) = uMix u + (targetMix st - uMix u) * 0.05"
    by (simp add: animate_def)
  have "(0.95::real) ^ Suc n * (1 - uMix u) \<le> 0.95 ^ n * (1 - uMix u)"
    using g0 by (intro mult_right_mono power_decreasing) simp_all
  then have mono: "uMix (animate_frames n st u) \<le> uMix (animate_frames (Suc n) st u)"
    using gap [of n] gap [of "Suc n"] by linarith
  have "0 \<le> (0.95::real) ^ n * (1 - uMix u)"
    using g0 by simp
  then have le1: "uMix (animate_frames n st u) \<le> 1"
    using gap [of n] by linarith
  have close: "1 - uMix (animate_frames n st u) < 0.01" if "90 \<le> n"
  proof -
    have "(0.95::real) ^ n * (1 - uMix u) \<le> 0.95 ^ n * 1"
      using assms(2) by (intro mult_left_mono) simp_all
    also have "\<dots> < 0.01" using pow_ge90 [OF that] by simp
    finally show ?thesis using gap [of n] by simp
  qed
  have strict: "uMix (animate_frames n st u) < 1" if "uMix u < 1"
  proof -
    have "0 < (0.95::real) ^ n * (1 - uMix u)" using that by simp
    then show ?thesis using gap [of n] by linarith
  qed
  from formula mono gap [of n] le1 close strict show ?thesis by blast
qed

theorem animate_blend_approaches_target_witness:
  "targetMix \<lparr>state_gesture = OPEN, targetMix = 1, lastVideoTime = 0\<rparr> = 1
   \<and> 0 \<le> uMix \<lparr>uTime = 0, uMix = 0\<rparr> \<and> uMix \<lparr>uTime = 0, uMix = 0\<rparr> \<le> 1
   \<and> (90::nat) \<le> 90 \<and> uMix \<lparr>uTime = 0, uMix = 0\<rparr> < 1
   \<and> 1 - uMix (animate_frames 90 \<lparr>state_gesture = OPEN, targetMix = 1, lastVideoTime = 0\<rparr>
                   \<lparr>uTime = 0, uMix = 0\<rparr>) < 0.01
   \<and> uMix (animate_frames 90 \<lparr>state_gesture = OPEN, targetMix = 1, lastVideoTime = 0\<rparr>
               \<lparr>uTime = 0, uMix = 0\<rparr>) < 1"
  using animate_blend_approaches_target
          [of "\<lparr>state_gesture = OPEN, targetMix = 1, lastVideoTime = 0\<rparr>"
              "\<lparr>uTime = 0, uMix = 0\<rparr>" 90]
  by simp

section \<open>The vertex shader at blend 0 and time 0\<close>

text \<open>
  Claim C7. With \<open>uMix = 0\<close> and \<open>uTime = 0\<close> the shader's position is the rest
  position, for every particle and every noise function: the interpolation at 0 is the
  rest position, the turbulence is scaled by the blend and vanishes at blend 0 whatever
  the time, and the rotation by \<open>uTime * 0.1\<close> is the identity at time 0.
\<close>

theorem vertex_main_rest_at_zero:
  "vertex_main snoise restPosition alternatePosition aRandom 0 0 = restPosition
   \<and> mix restPosition alternatePosition 0 = restPosition
   \<and> turbulent snoise aRandom 0 time restPosition = restPosition
   \<and> spin 0 0 restPosition = restPosition"
  by (cases restPosition; cases alternatePosition; cases aRandom)
     (simp add: vertex_main_def mix1_def)

section \<open>The gesture handlers of script.js\<close>

lemma euclid2_vertical: "euclid2 (a, b, c) (a, b', c') = \<bar>b - b'\<bar>"
  by (simp add: euclid2_def)

lemma js_hypot_real:
  "js_hypot (js_sub (lm_x (landmark_of p)) (lm_x (landmark_of q)))
            (js_sub (lm_y (landmark_of p)) (lm_y (landmark_of q))) = Num (euclid2 p q)"
  by (cases p; cases q) (simp add: js_hypot_def landmark_of_def euclid2_def not_less)

lemma lm_at_real:
  "i < length pts \<Longrightarrow> lm_at (map landmark_of pts) i = Inr (landmark_of (pts ! i))"
  by (simp add: lm_at_def js_index_def)

lemma measure_hand_real:
  assumes "21 \<le> length pts"
  shows "measure_hand (map landmark_of pts) s =
         Inr (s\<lparr>handDetected := True,
                 handRotation := smooth_rotation (landmark_of (pts ! 9)) (handRotation s)\<rparr>,
              Num (euclid2 (pts ! 4) (pts ! 8)), Num (avg_tip_dist pts))"
proof -
  have i: "9 < length pts" "4 < length pts" "8 < length pts" "0 < length pts"
    "12 < length pts" "16 < length pts" "20 < length pts"
    using assms by auto
  note l = i [THEN lm_at_real]
  show ?thesis
    unfolding measure_hand_def
    by (simp add: l bind_err_def js_hypot_real avg_tip_dist_def Let_def)
qed

lemma triggerFocus_fields [simp]:
  "gesture (triggerFocus u s) = gesture s"
  "mode (triggerFocus u s) = mode s"
  "items (triggerFocus u s) = items s"
  "handDetected (triggerFocus u s) = handDetected s"
  "handRotation (triggerFocus u s) = handRotation s"
  by (simp_all add: triggerFocus_def Let_def)

lemma detectGesture_never_PINCH: "detectGesture lms \<noteq> Inr PINCH"
  by (auto simp: detectGesture_def split: option.splits sum.splits)

lemma handleGestures_real:
  assumes "21 \<le> length pts"
  shows "handleGestures u (Some (map landmark_of pts # others)) s =
         Inr (let s1 = s\<lparr>handDetected := True,
                   handRotation := smooth_rotation (landmark_of (pts ! 9)) (handRotation s)\<rparr>
              in if euclid2 (pts ! 4) (pts ! 8) < 0.05
                 then triggerFocus u (s1\<lparr>gesture := PINCH, mode := FOCUS\<rparr>)
                 else if avg_tip_dist pts > 0.45 then s1\<lparr>gesture := OPEN, mode := SCATTER\<rparr>
                 else if avg_tip_dist pts < 0.25 then s1\<lparr>gesture := FIST, mode := TREE\<rparr>
                 else s1\<lparr>gesture := NONE, mode := TREE\<rparr>)"
  by (cases "mode s")
     (simp_all add: handleGestures_def measure_hand_real [OF assms] bind_err_def Let_def)

lemma handleGestures_b_real:
  assumes "21 \<le> length pts"
  shows "handleGestures_b u (Some (map landmark_of pts # others)) s =
         Inr (let s1 = s\<lparr>handDetected := True,
                   handRotation := smooth_rotation (landmark_of (pts ! 9)) (handRotation s)\<rparr>
              in if euclid2 (pts ! 4) (pts ! 8) < 0.05
                 then triggerFocus u (s1\<lparr>gesture := PINCH, mode := FOCUS\<rparr>)
                 else if avg_tip_dist pts < 0.2 then s1\<lparr>gesture := FIST, mode := TREE\<rparr>
                 else if avg_tip_dist pts > 0.35 then s1\<lparr>gesture := OPEN, mode := SCATTER\<rparr>
                 else s1\<lparr>gesture := NONE\<rparr>)"
  by (simp add: handleGestures_b_def measure_hand_real [OF assms] bind_err_def Let_def)

lemma example_hand_measures:
  "euclid2 (example_hand a b ! 4) (example_hand a b ! 8) = \<bar>a - b\<bar>"
  "avg_tip_dist (example_hand a b) = \<bar>b - 0.9\<bar>"
  by (simp_all add: example_hand_def Let_def avg_tip_dist_def euclid2_vertical)

text \<open>
  Claim C2, as stated, fails for the classifier of \<open>main.js\<close>: a hand whose thumb tip
  is 0.01 from its index tip, with four extended fingers, is classified \<open>open\<close>.
\<close>

theorem detectGesture_pinch_counterexample:
  "euclid2 (example_hand 0.31 0.3 ! 4) (example_hand 0.31 0.3 ! 8) < 0.05
   \<and> detectGesture (Some (map landmark_of (example_hand 0.31 0.3))) = Inr OPEN"
  by (simp add: example_hand_measures detectGesture_real example_hand_extended)

text \<open>
  Claim C2, amended. In both \<open>handleGestures\<close> of \<open>script.js\<close>, a hand of 21
  landmarks whose thumb tip is less than 0.05 from its index tip in the image plane
  gives the gesture \<open>PINCH\<close> and the mode \<open>FOCUS\<close>, whatever the distance of the
  finger tips from the wrist: the pinch test comes first. \<open>detectGesture\<close> of
  \<open>main.js\<close> has no pinch test and never answers \<open>PINCH\<close>.
\<close>

theorem pinch_first_in_handleGestures:
  assumes "length pts = 21" and "euclid2 (pts ! 4) (pts ! 8) < 0.05"
  shows "(\<exists>s'. handleGestures u (Some (map landmark_of pts # others)) s = Inr s'
              \<and> gesture s' = PINCH \<and> mode s' = FOCUS)
       \<and> (\<exists>s'. handleGestures_b u (Some (map landmark_of pts # others)) s = Inr s'
              \<and> gesture s' = PINCH \<and> mode s' = FOCUS)
       \<and> detectGesture lms \<noteq> Inr PINCH"
proof -
  have l: "21 \<le> length pts" by (simp add: assms(1))
  have a: "\<exists>s'. handleGestures u (Some (map landmark_of pts # others)) s = Inr s'
              \<and> gesture s' = PINCH \<and> mode s' = FOCUS"
    using assms(2) by (simp add: handleGestures_real [OF l] Let_def)
  have b: "\<exists>s'. handleGestures_b u (Some (map landmark_of pts # others)) s = Inr s'
              \<and> gesture s' = PINCH \<and> mode s' = FOCUS"
    using assms(2) by (simp add: handleGestures_b_real [OF l] Let_def)
  from a b detectGesture_never_PINCH show ?thesis by blast
qed

theorem pinch_first_in_handleGestures_witness:
  "length (example_hand 0.31 0.3) = 21
   \<and> euclid2 (example_hand 0.31 0.3 ! 4) (example_hand 0.31 0.3 ! 8) < 0.05
   \<and> avg_tip_dist (example_hand 0.31 0.3) > 0.45
   \<and> (\<exists>s'. handleGestures 0 (Some [map landmark_of (example_hand 0.31 0.3)])
               (initial_app []) = Inr s'
             \<and> gesture s' = PINCH \<and> mode s' = FOCUS)
   \<and> (\<exists>s'. handleGestures_b 0 (Some [map landmark_of (example_hand 0.31 0.3)])
               (initial_app []) = Inr s'
             \<and> gesture s' = PINCH \<and> mode s' = FOCUS)"
proof -
  have h1: "length (example_hand 0.31 0.3) = 21" by simp
  have h2: "euclid2 (example_hand 0.31 0.3 ! 4) (example_hand 0.31 0.3 ! 8) < 0.05"
    by (simp add: example_hand_measures)
  have h3: "avg_tip_dist (example_hand 0.31 0.3) > 0.45"
    by (simp add: example_hand_measures)
  from pinch_first_in_handleGestures [OF h1 h2, of 0 "[]" "initial_app []"] h1 h2 h3
  show ?thesis by blast
qed

subsection \<open>Ambiguous gestures and lost hands\<close>

text \<open>
  The handler of the first program: after every processed frame the mode is \<open>TREE\<close>
  unless this very frame was classified \<open>PINCH\<close> or \<open>OPEN\<close>; a frame without a hand
  sets the mode to \<open>TREE\<close>.
\<close>

lemma handleGestures_settles:
  assumes "handleGestures u r s = Inr s'"
  shows "(gesture s' = PINCH \<and> mode s' = FOCUS) \<or> (gesture s' = OPEN \<and> mode s' = SCATTER)
         \<or> mode s' = TREE"
proof (cases "case r of None \<Rightarrow> False | Some hands \<Rightarrow> length hands > 0")
  case False
  with assms show ?thesis by (auto simp: handleGestures_def)
next
  case True
  show ?thesis
  proof (cases "measure_hand (the r ! 0) s")
    case (Inl e)
    with assms True show ?thesis by (simp add: handleGestures_def bind_err_def)
  next
    case (Inr t)
    obtain s1 p a where t: "t = (s1, p, a)" by (cases t)
    from assms True show ?thesis
      by (cases "mode s1")
         (auto simp: handleGestures_def bind_err_def Inr t Let_def split: if_splits)
  qed
qed

lemma handleGestures_no_hand:
  assumes "r = None \<or> r = Some []"
  shows "handleGestures u r s = Inr (s\<lparr>handDetected := False, mode := TREE\<rparr>)"
  using assms by (auto simp: handleGestures_def)

lemma handleGestures_trace:
  "map_sum id (map (\<lambda>s. (gesture s, mode s)))
     (run_frames handleGestures
        [(u1, Some [map landmark_of (example_hand 0.5 0.3)]),
         (u2, Some [map landmark_of (example_hand 0.5 0.3)]),
         (u3, Some [map landmark_of (example_hand 0.8 0.6)]),
         (u4, Some [map landmark_of (example_hand 0.8 0.6)])]
        (initial_app ms))
   = Inr [(OPEN, SCATTER), (OPEN, SCATTER), (NONE, TREE), (NONE, TREE)]"
  by (simp add: handleGestures_real example_hand_measures bind_err_def initial_app_def)

text \<open>
  The idle decay of \<open>main.js\<close>: a processed frame without hands lowers \<open>targetMix\<close> by
  0.02 and stops at 0.
\<close>

lemma predictWebcam_idle_decay:
  assumes "handLandmarker" and "currentTime \<noteq> lastVideoTime st" and "r = None \<or> r = Some []"
    and "predictWebcam handLandmarker currentTime r st = Inr st'"
  shows "targetMix st' = max 0 (targetMix st - 0.02)"
    and "0 \<le> targetMix st'"
    and "0 \<le> targetMix st \<Longrightarrow> targetMix st' \<le> targetMix st"
    and "0 \<le> targetMix st \<Longrightarrow> targetMix st - targetMix st' \<le> 0.02"
    and "0.02 < targetMix st \<Longrightarrow> 0 < targetMix st'"
  using assms(4) unfolding predictWebcam_no_hands [OF assms(1-3)]
  by (auto simp: max_def)

text \<open>
  Claim C4 on the handler of the last program in \<open>script.js\<close> (lines 2492 to 2542).
  Two frames with an open hand and two with an ambiguous hand, from the initial state:
  the gestures are \<open>OPEN\<close>, \<open>OPEN\<close>, \<open>NONE\<close>, \<open>NONE\<close> and the mode stays \<open>SCATTER\<close>
  on the ambiguous frames, where the claim asks for \<open>TREE\<close>.
\<close>

theorem handleGestures_b_stays_scattered:
  "map_sum id (map (\<lambda>s. (gesture s, mode s)))
     (run_frames handleGestures_b
        [(u1, Some [map landmark_of (example_hand 0.5 0.3)]),
         (u2, Some [map landmark_of (example_hand 0.5 0.3)]),
         (u3, Some [map landmark_of (example_hand 0.8 0.6)]),
         (u4, Some [map landmark_of (example_hand 0.8 0.6)])]
        (initial_app ms))
   = Inr [(OPEN, SCATTER), (OPEN, SCATTER), (NONE, SCATTER), (NONE, SCATTER)]"
  by (simp add: handleGestures_b_real example_hand_measures bind_err_def initial_app_def)

text \<open>
  Claim C5 on the same handler: a processed frame without hands, in mode \<open>SCATTER\<close>,
  clears \<open>handDetected\<close> and leaves the mode \<open>SCATTER\<close>, where the claim asks for
  \<open>TREE\<close>.
\<close>

theorem handleGestures_b_no_hand_keeps_mode:
  "handleGestures_b u None (s\<lparr>mode := SCATTER\<rparr>)
     = Inr (s\<lparr>mode := SCATTER, handDetected := False\<rparr>)
   \<and> handleGestures_b u (Some []) (s\<lparr>mode := SCATTER\<rparr>)
     = Inr (s\<lparr>mode := SCATTER, handDetected := False\<rparr>)
   \<and> mode (s\<lparr>mode := SCATTER, handDetected := False\<rparr>) = SCATTER"
  by (simp add: handleGestures_b_def)

section \<open>The scatter formation of script.js\<close>

lemma sphere_sq:
  fixes r s c ct st :: real
  assumes "s^2 + c^2 = 1" "ct^2 + st^2 = 1"
  shows "(r * s * ct)^2 + (r * s * st)^2 + (r * c)^2 = r^2"
proof -
  have "(r * s * ct)^2 + (r * s * st)^2 + (r * c)^2 = r^2 * (s^2 * (ct^2 + st^2) + c^2)"
    by (simp add: power_mult_distrib algebra_simps)
  then show ?thesis using assms by simp
qed

lemma spherical_norm:
  assumes "0 \<le> r"
  shows "euclid3 (spherical r ph th) (0, 0, 0) = r"
proof -
  have "(r * sin ph * cos th)^2 + (r * sin ph * sin th)^2 + (r * cos ph)^2 = r^2"
    by (rule sphere_sq) simp_all
  then have "sqrt ((r * sin ph * cos th)^2 + (r * sin ph * sin th)^2 + (r * cos ph)^2) = r"
    using assms by simp
  then show ?thesis
    by (simp add: spherical_def euclid3_def)
qed

lemma calculateScatterPos_spherical:
  "calculateScatterPos u1 u2 u3 = spherical (10 + u1 * 15) (arccos (u3 * 2 - 1)) (u2 * pi * 2)"
  by (simp add: calculateScatterPos_def spherical_def Let_def)

lemma spherical_cover:
  fixes px py pz :: real
  assumes rho: "0 < rho" "rho = sqrt (px^2 + py^2 + pz^2)"
      and np: "\<not> (px = 0 \<and> py = 0 \<and> 0 < pz)"
  shows "\<exists>u2 u3. 0 \<le> u2 \<and> u2 < 1 \<and> 0 \<le> u3 \<and> u3 < 1
           \<and> spherical rho (arccos (u3 * 2 - 1)) (u2 * pi * 2) = (px, py, pz)"
proof -
  have sq: "rho^2 = px^2 + py^2 + pz^2"
    using rho by (simp add: real_sqrt_pow2_iff add_nonneg_nonneg)
  define c where "c = pz / rho"
  have pz: "pz = rho * c" using rho(1) by (simp add: c_def)
  have c2: "c^2 \<le> 1"
  proof -
    have "pz^2 \<le> rho^2" using sq by (simp add: add_nonneg_nonneg)
    then show ?thesis using rho(1) by (simp add: c_def power_divide)
  qed
  then have "\<bar>c\<bar> \<le> 1" by (simp add: abs_square_le_1)
  then have cb: "-1 \<le> c" "c \<le> 1" by simp_all
  have xy: "px^2 + py^2 = rho^2 * (1 - c^2)"
    using sq by (simp add: pz power_mult_distrib algebra_simps)
  have cne: "c \<noteq> 1"
  proof
    assume "c = 1"
    with xy have "px^2 + py^2 = 0" by simp
    then have "px = 0 \<and> py = 0" by (simp add: sum_power2_eq_zero_iff)
    with pz \<open>c = 1\<close> rho(1) np show False by simp
  qed
  define u3 where "u3 = (c + 1) / 2"
  have u3: "0 \<le> u3" "u3 < 1" "u3 * 2 - 1 = c"
    using cb cne by (simp_all add: u3_def field_simps)
  show ?thesis
  proof (cases "c = -1")
    case True
    with xy have "px^2 + py^2 = 0" by simp
    then have "px = 0" "py = 0" by (simp_all add: sum_power2_eq_zero_iff)
    then have "spherical rho (arccos (u3 * 2 - 1)) (0 * pi * 2) = (px, py, pz)"
      by (simp add: spherical_def u3(3) True pz)
    with u3 show ?thesis by (intro exI [of _ 0] exI [of _ u3]) simp
  next
    case False
    define s where "s = sin (arccos c)"
    have s_sqrt: "s = sqrt (1 - c^2)" using cb by (simp add: s_def sin_arccos)
    have "\<bar>c\<bar> < 1" using cb cne False by simp
    then have "c^2 < 1" by (simp add: abs_square_less_1)
    then have spos: "0 < s" and s2: "s^2 = 1 - c^2" by (simp_all add: s_sqrt)
    define a where "a = px / (rho * s)"
    define b where "b = py / (rho * s)"
    have "px^2 + py^2 = (rho * s)^2" using xy by (simp add: s2 power_mult_distrib)
    moreover have "rho * s \<noteq> 0" using rho(1) spos by simp
    ultimately have "a^2 + b^2 = 1"
      by (simp add: a_def b_def power_divide add_divide_distrib [symmetric])
    then obtain t where t: "0 \<le> t" "t < 2 * pi" "a = cos t" "b = sin t"
      using sincos_total_2pi by blast
    define u2 where "u2 = t / (2 * pi)"
    have u2: "0 \<le> u2" "u2 < 1" "u2 * pi * 2 = t"
      using t(1,2) by (simp_all add: u2_def)
    have "rho * s * cos t = px" "rho * s * sin t = py" "rho * cos (arccos c) = pz"
      using rho(1) spos cb by (simp_all add: t(3,4) [symmetric] a_def b_def pz)
    then have "spherical rho (arccos (u3 * 2 - 1)) (u2 * pi * 2) = (px, py, pz)"
      by (simp add: spherical_def u3(3) u2(3) s_def)
    with u2 u3 show ?thesis by blast
  qed
qed


lemma euclid3_z_axis: "euclid3 (a, b, c) (a, b, c') = \<bar>c - c'\<bar>"
  by (simp add: euclid3_def)

text \<open>
  Claim C8. For draws in [0, 1), \<open>calculateScatterPos\<close> returns the point with radius
  \<open>10 + u1 * 15\<close>, inclination \<open>arccos (u3 * 2 - 1)\<close> and azimuth \<open>u2 * pi * 2\<close>: its
  distance from the origin is that radius and lies in [10, 25]; its third coordinate is
  the radius times \<open>u3 * 2 - 1\<close>, so that coordinate over the radius is spread evenly
  over [-1, 1) when the draw is spread evenly; and every point whose distance from the
  origin is in [10, 25), the positive half of the third axis apart, is the result of
  some draws.
\<close>

theorem calculateScatterPos_shell:
  assumes "0 \<le> u1" and "u1 < 1" and "0 \<le> u2" and "u2 < 1" and "0 \<le> u3" and "u3 < 1"
  shows "euclid3 (calculateScatterPos u1 u2 u3) (0, 0, 0) = 10 + u1 * 15
         \<and> 10 \<le> euclid3 (calculateScatterPos u1 u2 u3) (0, 0, 0)
         \<and> euclid3 (calculateScatterPos u1 u2 u3) (0, 0, 0) \<le> 25
         \<and> calculateScatterPos u1 u2 u3
             = spherical (10 + u1 * 15) (arccos (u3 * 2 - 1)) (u2 * pi * 2)
         \<and> snd (snd (calculateScatterPos u1 u2 u3)) = (10 + u1 * 15) * (u3 * 2 - 1)
         \<and> 0 \<le> u2 * pi * 2 \<and> u2 * pi * 2 < 2 * pi
         \<and> 0 \<le> arccos (u3 * 2 - 1) \<and> arccos (u3 * 2 - 1) \<le> pi
         \<and> (10 \<le> euclid3 (px, py, pz) (0, 0, 0) \<and> euclid3 (px, py, pz) (0, 0, 0) < 25
              \<and> \<not> (px = 0 \<and> py = 0 \<and> 0 < pz)
            \<longrightarrow> (\<exists>v1 v2 v3. 0 \<le> v1 \<and> v1 < 1 \<and> 0 \<le> v2 \<and> v2 < 1 \<and> 0 \<le> v3 \<and> v3 < 1
                     \<and> calculateScatterPos v1 v2 v3 = (px, py, pz)))"
proof -
  have r0: "0 \<le> 10 + u1 * 15" using assms(1) by simp
  have norm: "euclid3 (calculateScatterPos u1 u2 u3) (0, 0, 0) = 10 + u1 * 15"
    by (simp only: calculateScatterPos_spherical spherical_norm [OF r0])
  have range: "10 \<le> 10 + u1 * 15" "10 + u1 * 15 \<le> 25"
    using assms(1,2) by simp_all
  have c: "-1 \<le> u3 * 2 - 1" "u3 * 2 - 1 \<le> 1" using assms(5,6) by simp_all
  have z: "snd (snd (calculateScatterPos u1 u2 u3)) = (10 + u1 * 15) * (u3 * 2 - 1)"
    using c by (simp add: calculateScatterPos_def Let_def)
  have az: "0 \<le> u2 * pi * 2" "u2 * pi * 2 < 2 * pi" using assms(3,4) by simp_all
  have inc: "0 \<le> arccos (u3 * 2 - 1)" "arccos (u3 * 2 - 1) \<le> pi"
    using c by (simp_all add: arccos_lbound arccos_ubound)
  have cover: "\<exists>v1 v2 v3. 0 \<le> v1 \<and> v1 < 1 \<and> 0 \<le> v2 \<and> v2 < 1 \<and> 0 \<le> v3 \<and> v3 < 1
                     \<and> calculateScatterPos v1 v2 v3 = (px, py, pz)"
    if p: "10 \<le> euclid3 (px, py, pz) (0, 0, 0)" "euclid3 (px, py, pz) (0, 0, 0) < 25"
      "\<not> (px = 0 \<and> py = 0 \<and> 0 < pz)"
  proof -
    define rho where "rho = euclid3 (px, py, pz) (0, 0, 0)"
    have "0 < rho" using p(1) by (simp add: rho_def)
    moreover have "rho = sqrt (px\<^sup>2 + py\<^sup>2 + pz\<^sup>2)"
      by (simp add: rho_def euclid3_def)
    ultimately have rho: "0 < rho" "rho = sqrt (px\<^sup>2 + py\<^sup>2 + pz\<^sup>2)" .
    define v1 where "v1 = (rho - 10) / 15"
    have v1: "0 \<le> v1" "v1 < 1" "10 + v1 * 15 = rho"
      using p(1,2) by (simp_all add: v1_def rho_def [symmetric] field_simps)
    from spherical_cover [OF rho p(3)] obtain v2 v3 where
      v: "0 \<le> v2" "v2 < 1" "0 \<le> v3" "v3 < 1"
      "spherical rho (arccos (v3 * 2 - 1)) (v2 * pi * 2) = (px, py, pz)" by blast
    have "calculateScatterPos v1 v2 v3 = (px, py, pz)"
      by (simp only: calculateScatterPos_spherical v1(3) v(5))
    with v1 v show ?thesis by blast
  qed
  from norm range z az inc cover calculateScatterPos_spherical show ?thesis
    by (simp only: norm) blast
qed

theorem calculateScatterPos_shell_witness:
  "euclid3 (calculateScatterPos 0 0 0) (0, 0, 0) = 10
   \<and> calculateScatterPos 0 0 0 = (0, 0, -10)
   \<and> 10 \<le> euclid3 (0, 0, -10) (0, 0, 0) \<and> euclid3 (0, 0, -10) (0, 0, 0) < 25
   \<and> (\<exists>v1 v2 v3. 0 \<le> v1 \<and> v1 < 1 \<and> 0 \<le> v2 \<and> v2 < 1 \<and> 0 \<le> v3 \<and> v3 < (1::real)
         \<and> calculateScatterPos v1 v2 v3 = (0, 0, -10))"
  using calculateScatterPos_shell [of 0 0 0 0 0 "-10"]
  by (simp add: euclid3_z_axis spherical_def)

section \<open>The per-frame update of the positions\<close>

lemma v3_lerp_convex: "v3_lerp p q t = convex t p q"
  by (cases p; cases q) (simp add: convex_def algebra_simps)

lemma mix_convex: "mix p q t = convex t p q"
  by (cases p; cases q) (simp add: convex_def mix1_def algebra_simps)

lemma target_of_Some: "fst (target_of md tp i m) = Some (target_position md tp i m)"
  by (cases md) (simp_all add: target_of_def target_position_def)

lemma position_update_mesh:
  "position (update_mesh f md tp i m) = convex f (position m) (target_position md tp i m)"
proof -
  obtain sc where t: "target_of md tp i m = (Some (target_position md tp i m), sc)"
    using target_of_Some [of md tp i m] by (cases "target_of md tp i m") simp
  show ?thesis
    by (simp add: update_mesh_def t Let_def v3_lerp_convex)
qed

lemma update_mesh_static [simp]:
  "mtype (update_mesh f md tp i m) = mtype m"
  "treePos (update_mesh f md tp i m) = treePos m"
  "scatterPos (update_mesh f md tp i m) = scatterPos m"
  by (cases "target_of md tp i m"; cases "fst (target_of md tp i m)";
      simp add: update_mesh_def Let_def)+

lemma items_update_nth:
  assumes "i < length (items s)"
  shows "items (update delta time md s) ! i
         = update_mesh (2 * delta) md (targetPhoto s) i (items s ! i)"
  using assms by (simp add: update_def Let_def nth_enumerate_eq)

lemma update_fields [simp]:
  "mode (update delta time md s) = mode s"
  "targetPhoto (update delta time md s) = targetPhoto s"
  "length (items (update delta time md s)) = length (items s)"
  by (simp_all add: update_def Let_def)

text \<open>
  Claim C9, as stated, fails at the lerp factor 1 (a frame of half a second): one
  \<open>update\<close> in mode \<open>SCATTER\<close> puts a particle resting at its tree position
  \<open>(1, 0, 0)\<close> exactly on its scatter position \<open>(10, 0, 0)\<close>.
\<close>

theorem update_snaps_counterexample:
  "(0::real) \<le> 2.0 * 0.5 \<and> 2.0 * 0.5 \<le> (1::real)
   \<and> position (items (initial_app [mesh_at PARTICLE (1, 0, 0) (10, 0, 0),
                                      mesh_at PHOTO (0, 5, 0) (0, 20, 0)]) ! 0)
       \<noteq> (10, 0, 0)
   \<and> position (items (update 0.5 0 SCATTER
         (initial_app [mesh_at PARTICLE (1, 0, 0) (10, 0, 0),
                       mesh_at PHOTO (0, 5, 0) (0, 20, 0)])) ! 0)
       = (10, 0, 0)"
  by (simp add: initial_app_def mesh_at_def update_def Let_def update_mesh_def target_of_def)

text \<open>
  Claim C9, amended. For a display frame with lerp factor \<open>2.0 * delta\<close> in [0, 1],
  the new position of every mesh is the convex combination of its previous position
  and the target position of the current mode, with weights \<open>1 - 2.0 * delta\<close> and
  \<open>2.0 * delta\<close>, both at least 0; in the shader the position before turbulence is
  the same combination of rest and alternate position at the blend. Nothing is said
  about whether an update can put a mesh on its target: the lerp factor is not kept
  below 1.
\<close>

theorem update_moves_on_segment:
  assumes "0 \<le> 2.0 * delta" and "2.0 * delta \<le> 1" and "i < length (items s)"
  shows "position (items (update delta time md s) ! i)
           = convex (2.0 * delta) (position (items s ! i))
               (target_position md (targetPhoto s) i (items s ! i))
         \<and> 0 \<le> 1 - 2.0 * delta
         \<and> vertex_main snoise restPosition alternatePosition aRandom blend uTime_v
           = spin blend uTime_v
               (turbulent snoise aRandom blend uTime_v (convex blend restPosition alternatePosition))"
proof -
  have pos: "position (items (update delta time md s) ! i)
           = convex (2.0 * delta) (position (items s ! i))
               (target_position md (targetPhoto s) i (items s ! i))"
    using items_update_nth [OF assms(3)] by (simp add: position_update_mesh)
  have shader: "vertex_main snoise restPosition alternatePosition aRandom blend uTime_v
           = spin blend uTime_v
               (turbulent snoise aRandom blend uTime_v (convex blend restPosition alternatePosition))"
    by (simp add: vertex_main_def Let_def mix_convex)
  from pos shader assms(2) show ?thesis
    by (simp del: mix.simps)
qed

theorem update_moves_on_segment_witness:
  "(0::real) \<le> 2.0 * 0.25 \<and> 2.0 * 0.25 \<le> (1::real)
   \<and> 0 < length (items (initial_app [mesh_at PARTICLE (1, 0, 0) (10, 0, 0),
                                       mesh_at PHOTO (0, 5, 0) (0, 20, 0)]))
   \<and> target_position SCATTER None 0 (mesh_at PARTICLE (1, 0, 0) (10, 0, 0)) = (10, 0, 0)
   \<and> position (items (update 0.25 0 SCATTER
         (initial_app [mesh_at PARTICLE (1, 0, 0) (10, 0, 0),
                       mesh_at PHOTO (0, 5, 0) (0, 20, 0)])) ! 0)
       = (5.5, 0, 0)"
  using update_moves_on_segment
          [where delta = "0.25" and i = 0 and time = 0 and md = SCATTER
             and s = "initial_app [mesh_at PARTICLE (1, 0, 0) (10, 0, 0),
                                   mesh_at PHOTO (0, 5, 0) (0, 20, 0)]"]
  by (simp add: initial_app_def mesh_at_def target_position_def target_of_def convex_def)

section \<open>The focus target\<close>

lemma set_photos_of: "set (photos_of ms) = {i. i < length ms \<and> mtype (ms ! i) = PHOTO}"
  by (auto simp: photos_of_def)

lemma photos_of_snoc:
  "photos_of (ms @ [m]) = photos_of ms @ (if mtype m = PHOTO then [length ms] else [])"
proof -
  have "filter (\<lambda>i. mtype ((ms @ [m]) ! i) = PHOTO) [0..<length ms]
        = filter (\<lambda>i. mtype (ms ! i) = PHOTO) [0..<length ms]"
    by (rule filter_cong) (simp_all add: nth_append)
  then show ?thesis by (simp add: photos_of_def)
qed

lemma photos_of_particles:
  assumes "\<forall>m \<in> set ms. mtype m = PARTICLE"
  shows "photos_of ms = []"
  using assms by (auto simp: photos_of_def filter_empty_conv)

lemma make_particle_type: "mtype (fst (make_particle rnd k i n)) = PARTICLE"
  by (simp add: make_particle_def Let_def)

lemma make_particles_spec:
  assumes "\<forall>m \<in> set ms. mtype m = PARTICLE"
  shows "(\<forall>m \<in> set (fst (make_particles rnd k i n ms)). mtype m = PARTICLE)
         \<and> length (fst (make_particles rnd k i n ms)) = length ms + (n - i)"
  using assms
proof (induction rnd k i n ms rule: make_particles.induct)
  case (1 rnd k i count items)
  show ?case
  proof (cases "i < count")
    case False
    with "1.prems" show ?thesis by (subst (1 2) make_particles.simps) simp
  next
    case True
    obtain m k' where mk: "make_particle rnd k i count = (m, k')"
      by (cases "make_particle rnd k i count")
    have "mtype m = PARTICLE" using make_particle_type [of rnd k i count] by (simp add: mk)
    with "1.prems" have "\<forall>x \<in> set (items @ [m]). mtype x = PARTICLE" by simp
    from "1.IH" [OF True mk [symmetric] this] True show ?thesis
      by (subst (1 2) make_particles.simps) (simp add: mk)
  qed
qed

lemma photos_of_ParticleManager: "photos_of (fst (ParticleManager rnd k n)) = [n]"
proof -
  obtain ps k' where mp: "make_particles rnd k 0 n [] = (ps, k')"
    by (cases "make_particles rnd k 0 n []")
  have ps: "\<forall>m \<in> set ps. mtype m = PARTICLE" "length ps = n"
    using make_particles_spec [of "[]" rnd k 0 n] by (simp_all add: mp)
  show ?thesis
    by (simp add: ParticleManager_def mp addPhoto_def Let_def photos_of_snoc
          photos_of_particles [OF ps(1)] ps(2))
qed

lemma triggerFocus_no_photo:
  "photos_of (items s) = [] \<Longrightarrow> triggerFocus u s = s"
  by (simp add: triggerFocus_def)

lemma triggerFocus_photo:
  assumes "photos_of (items s) \<noteq> []" and "0 \<le> u" and "u < 1"
  shows "\<exists>i. triggerFocus u s = s\<lparr>targetPhoto := Some i\<rparr>
             \<and> i < length (items s) \<and> mtype (items s ! i) = PHOTO"
proof -
  define photos where "photos = photos_of (items s)"
  define j where "j = \<lfloor>u * real (length photos)\<rfloor>"
  have n: "0 < length photos" using assms(1) by (simp add: photos_def)
  have j0: "0 \<le> j" using assms(2) by (simp add: j_def)
  have "u * real (length photos) < real (length photos)"
    using assms(3) n by simp
  then have "j < int (length photos)"
    by (simp add: j_def floor_less_iff)
  with j0 have jn: "nat j < length photos" by simp
  then have "photos ! nat j \<in> set (photos_of (items s))"
    by (simp add: photos_def)
  then have ok: "photos ! nat j < length (items s)" "mtype (items s ! (photos ! nat j)) = PHOTO"
    by (simp_all add: set_photos_of)
  have "triggerFocus u s = s\<lparr>targetPhoto := Some (photos ! nat j)\<rparr>"
    using n j0 jn by (simp add: triggerFocus_def Let_def photos_def [symmetric]
        j_def [symmetric] js_index_def)
  with ok show ?thesis by blast
qed


lemma measure_hand_fields:
  assumes "measure_hand lm s = Inr (s1, p, a)"
  shows "items s1 = items s" "targetPhoto s1 = targetPhoto s" "mode s1 = mode s"
  using assms
  by (auto simp: measure_hand_def bind_err_def Let_def split: sum.splits)

lemma handleGestures_step:
  assumes h: "handleGestures u r s = Inr s'"
    and ph: "photos_of (items s) \<noteq> []" and u: "0 \<le> u" "u < 1"
  shows "items s' = items s
         \<and> ((mode s' = FOCUS \<and> (\<exists>i. targetPhoto s' = Some i \<and> i < length (items s)
                                      \<and> mtype (items s ! i) = PHOTO))
            \<or> (mode s' \<noteq> FOCUS \<and> targetPhoto s' = targetPhoto s))"
proof (cases "case r of None \<Rightarrow> False | Some hands \<Rightarrow> length hands > 0")
  case False
  with h show ?thesis by (auto simp: handleGestures_def)
next
  case True
  show ?thesis
  proof (cases "measure_hand (the r ! 0) s")
    case (Inl e)
    with h True show ?thesis by (simp add: handleGestures_def bind_err_def)
  next
    case (Inr t)
    obtain s1 p a where t: "t = (s1, p, a)" by (cases t)
    note f = measure_hand_fields [OF Inr [unfolded t]]
    show ?thesis
    proof (cases "js_lt p (Num 0.05)")
      case pinch: True
      let ?s2 = "s1\<lparr>gesture := PINCH, mode := FOCUS\<rparr>"
      have s': "s' = triggerFocus u ?s2"
        using h True pinch by (simp add: handleGestures_def bind_err_def Inr t)
      have "photos_of (items ?s2) \<noteq> []" using ph f(1) by simp
      from triggerFocus_photo [OF this u]
      obtain i where "triggerFocus u ?s2 = ?s2\<lparr>targetPhoto := Some i\<rparr>"
        "i < length (items ?s2)" "mtype (items ?s2 ! i) = PHOTO" by blast
      then show ?thesis using f(1) by (simp add: s')
    next
      case False
      with h True show ?thesis
        by (cases "mode s1")
           (auto simp: handleGestures_def bind_err_def Inr t Let_def f split: if_splits)
    qed
  qed
qed

lemma photos_of_cong:
  assumes "map mtype ms = map mtype ms'"
  shows "photos_of ms = photos_of ms'"
proof -
  have l: "length ms = length ms'" using assms by (rule map_eq_imp_length_eq)
  have "\<And>i. i < length ms \<Longrightarrow> mtype (ms ! i) = mtype (ms' ! i)"
    using assms l by (metis nth_map)
  then show ?thesis
    unfolding photos_of_def l [symmetric] by (intro filter_cong) simp_all
qed

lemma map_mtype_update: "map mtype (items (update delta time md s)) = map mtype (items s)"
  by (rule nth_equalityI) (simp_all add: update_def Let_def nth_enumerate_eq)

lemma addPhoto_snoc: "\<exists>m. fst (addPhoto rnd k ms) = ms @ [m] \<and> mtype m = PHOTO"
  by (simp add: addPhoto_def Let_def)

lemma reachable_invariant:
  assumes "reachable s"
  shows "photos_of (items s) \<noteq> []
         \<and> (\<forall>i. targetPhoto s = Some i \<longrightarrow> i < length (items s) \<and> mtype (items s ! i) = PHOTO)
         \<and> (mode s = FOCUS \<longrightarrow> targetPhoto s \<noteq> None)"
  using assms
proof (induction rule: reachable.induct)
  case (init rnd k n)
  show ?case by (simp add: initial_app_def photos_of_ParticleManager)
next
  case (frame s u r s')
  from handleGestures_step [OF frame.hyps(4) _ frame.hyps(2,3)] frame.IH
  show ?case by auto
next
  case (upload s rnd k)
  obtain m where m: "fst (addPhoto rnd k (items s)) = items s @ [m]" "mtype m = PHOTO"
    using addPhoto_snoc by blast
  from upload.IH show ?case
    by (auto simp: m photos_of_snoc nth_append)
next
  case (display s delta time)
  have p: "photos_of (items (update delta time (mode s) s)) = photos_of (items s)"
    by (rule photos_of_cong) (rule map_mtype_update)
  have t: "\<And>i. i < length (items s)
            \<Longrightarrow> mtype (items (update delta time (mode s) s) ! i) = mtype (items s ! i)"
    by (simp add: update_def Let_def nth_enumerate_eq)
  from display.IH show ?case
    by (auto simp: p t)
next
  case (thrown s u r e hr)
  then show ?case by simp
qed

text \<open>
  Claim C10. \<open>triggerFocus\<close> changes nothing when no item is a photo; otherwise,
  with a draw in [0, 1), it changes \<open>targetPhoto\<close> alone and sets it to an item whose
  type is \<open>PHOTO\<close>. A new particle manager for \<open>n\<close> particles holds exactly one
  photo, its last item, so every reachable state has a photo, and in every reachable
  state a frame that ends in mode \<open>FOCUS\<close> (the pinch branch of \<open>handleGestures\<close>)
  leaves \<open>targetPhoto\<close> on an existing photo.
\<close>

theorem triggerFocus_selects_photo:
  "(photos_of (items s0) = [] \<longrightarrow> triggerFocus u0 s0 = s0)
   \<and> (photos_of (items s1) \<noteq> [] \<and> 0 \<le> u1 \<and> u1 < 1
        \<longrightarrow> (\<exists>i. triggerFocus u1 s1 = s1\<lparr>targetPhoto := Some i\<rparr>
                  \<and> i < length (items s1) \<and> mtype (items s1 ! i) = PHOTO))
   \<and> photos_of (fst (ParticleManager rnd k n)) = [n]
   \<and> (reachable s2 \<longrightarrow> photos_of (items s2) \<noteq> [])
   \<and> (reachable s2 \<and> 0 \<le> u2 \<and> u2 < 1 \<and> handleGestures u2 r s2 = Inr s3 \<and> mode s3 = FOCUS
        \<longrightarrow> (\<exists>i. targetPhoto s3 = Some i \<and> i < length (items s3)
                  \<and> mtype (items s3 ! i) = PHOTO))"
proof -
  have a: "photos_of (items s0) = [] \<longrightarrow> triggerFocus u0 s0 = s0"
    by (simp add: triggerFocus_no_photo)
  have b: "photos_of (items s1) \<noteq> [] \<and> 0 \<le> u1 \<and> u1 < 1
        \<longrightarrow> (\<exists>i. triggerFocus u1 s1 = s1\<lparr>targetPhoto := Some i\<rparr>
                  \<and> i < length (items s1) \<and> mtype (items s1 ! i) = PHOTO)"
    using triggerFocus_photo by blast
  have c: "reachable s2 \<longrightarrow> photos_of (items s2) \<noteq> []"
    using reachable_invariant by blast
  have d: "\<exists>i. targetPhoto s3 = Some i \<and> i < length (items s3) \<and> mtype (items s3 ! i) = PHOTO"
    if "reachable s2" "0 \<le> u2" "u2 < 1" "handleGestures u2 r s2 = Inr s3" "mode s3 = FOCUS"
  proof -
    have "photos_of (items s2) \<noteq> []" using that(1) reachable_invariant by blast
    from handleGestures_step [OF that(4) this that(2,3)] that(5) show ?thesis by auto
  qed
  from a b c d photos_of_ParticleManager show ?thesis by blast
qed


theorem triggerFocus_selects_photo_witness:
  "photos_of (items (initial_app [])) = [] \<and> triggerFocus 0 (initial_app []) = initial_app []
   \<and> photos_of (items (initial_app (fst (ParticleManager (\<lambda>_. 0) 0 2)))) = [2]
   \<and> reachable (initial_app (fst (ParticleManager (\<lambda>_. 0) 0 2)))
   \<and> (\<exists>i. triggerFocus 0.5 (initial_app (fst (ParticleManager (\<lambda>_. 0) 0 2)))
             = (initial_app (fst (ParticleManager (\<lambda>_. 0) 0 2)))\<lparr>targetPhoto := Some i\<rparr>
           \<and> i < length (items (initial_app (fst (ParticleManager (\<lambda>_. 0) 0 2))))
           \<and> mtype (items (initial_app (fst (ParticleManager (\<lambda>_. 0) 0 2))) ! i) = PHOTO)
   \<and> (\<exists>s3 i. handleGestures 0.5 (Some [map landmark_of (example_hand 0.31 0.3)])
                 (initial_app (fst (ParticleManager (\<lambda>_. 0) 0 2))) = Inr s3
             \<and> mode s3 = FOCUS \<and> targetPhoto s3 = Some i \<and> i < length (items s3)
             \<and> mtype (items s3 ! i) = PHOTO)"
proof -
  let ?s = "initial_app (fst (ParticleManager (\<lambda>_. 0) 0 2))"
  let ?r = "Some [map landmark_of (example_hand 0.31 0.3)]"
  have r: "reachable ?s" by (rule reachable.init)
  have p0: "photos_of (items (initial_app [])) = []"
    by (simp add: initial_app_def photos_of_def)
  obtain s3 where s3: "handleGestures 0.5 ?r ?s = Inr s3" "mode s3 = FOCUS"
    by (simp add: handleGestures_real example_hand_measures Let_def)
  note t = triggerFocus_selects_photo
             [where ?s0.0 = "initial_app []" and ?u0.0 = 0 and ?s1.0 = ?s and ?u1.0 = "0.5"
                and rnd = "\<lambda>_. 0" and k = 0 and n = 2 and ?s2.0 = ?s and ?u2.0 = "0.5"
                and r = ?r and ?s3.0 = s3]
  from t p0 have a: "triggerFocus 0 (initial_app []) = initial_app []" by blast
  from t have b: "photos_of (items ?s) = [2]" by (simp add: initial_app_def)
  from t r b have c: "\<exists>i. triggerFocus 0.5 ?s = ?s\<lparr>targetPhoto := Some i\<rparr>
           \<and> i < length (items ?s) \<and> mtype (items ?s ! i) = PHOTO" by simp
  from t r s3 have d: "\<exists>i. targetPhoto s3 = Some i \<and> i < length (items s3)
             \<and> mtype (items s3 ! i) = PHOTO" by simp
  from p0 a b r c d s3 show ?thesis by blast
qed

end
